theory Spec2Isabelle
  imports Complex_Main
begin

section \<open>The print layout of \<open>printingDialog.tsx\<close>\<close>

text \<open>
  The component \<open>PrintingDialog\<close> (\<open>client/src/components/printing/printingDialog.tsx\<close>)
  turns a \<open>PrintSettings\<close> object and a list of items into a list of pages, each a table
  of cells (lines 81 to 182). This theory embeds that computation.

  Numbers. The lengths in millimetres are JavaScript doubles; they are modelled as
  rationals, so the rounding of a double is not part of the model. The counts (columns,
  rows, skipItems, itemCopies) are integers, as section 3 of the specification types
  them; a count with a fraction is not modelled. A value that is \<open>undefined\<close> or \<open>NaN\<close>
  where a length is expected is \<open>None\<close>.

  Results. An exception of the source is an \<open>error\<close>, and a loop that does not end is
  \<open>None\<close>: the layout has the type \<open>(error + pages) option\<close>.
\<close>

subsection \<open>Data\<close>

record Margin =
  m_top :: rat
  m_bottom :: rat
  m_left :: rat
  m_right :: rat

record Spacing =
  horizontal :: rat
  vertical :: rat

record PaperDimensions =
  width :: rat
  height :: rat

datatype BorderShowMode = BorderNone | BorderOnly | BorderGrid

text \<open>
  Modelled from the spec: the declaration of \<open>PrintSettings\<close> (in \<open>./printing\<close>) is not
  among the source files; the fields are those of section 3 of the specification, which
  are the ones that lines 81 to 90 read. Every field is optional: \<open>None\<close> is
  \<open>undefined\<close>.
\<close>

record PrintSettings =
  margin :: "Margin option"
  printerMargin :: "Margin option"
  spacing :: "Spacing option"
  columns :: "int option"
  rows :: "int option"
  skipItems :: "int option"
  itemCopies :: "int option"
  paperSize :: "string option"
  customPaperSize :: "PaperDimensions option"
  borderShowMode :: "BorderShowMode option"

text \<open>What the code throws: reading a property of \<open>undefined\<close>, and an invalid array length.\<close>

datatype error = TypeError | RangeError

text \<open>The content of a cell: the empty fragment of a skipped position, or an item.\<close>

datatype 'a content = Placeholder | Item 'a

record 'a Cell =
  cell_width :: "rat option"
  cell_height :: "rat option"
  cell_border :: string
  paddingLeft :: rat
  paddingRight :: rat
  paddingTop :: rat
  paddingBottom :: rat
  cell_content :: "'a content"

record 'a Page =
  page_width :: "rat option"
  page_height :: "rat option"
  area_border :: string
  area_width :: "rat option"
  area_height :: "rat option"
  itemRows :: "'a Cell list list"

subsection \<open>The table of paper sizes (lines 38 to 63)\<close>

text \<open>
  \<open>paperDimensions\<close> is an object literal, so a lookup by key also finds what the object
  inherits from \<open>Object.prototype\<close>: such a value is not \<open>undefined\<close>, and it has no
  \<open>width\<close> or \<open>height\<close>.
\<close>

datatype lookup = Own PaperDimensions | Inherited | Absent

definition objectPrototypeKeys :: "string list" where
  "objectPrototypeKeys =
     [''constructor'', ''__proto__'', ''hasOwnProperty'', ''isPrototypeOf'',
      ''propertyIsEnumerable'', ''toLocaleString'', ''toString'', ''valueOf'',
      ''__defineGetter__'', ''__defineSetter__'', ''__lookupGetter__'', ''__lookupSetter__'']"

definition presets :: "(string \<times> PaperDimensions) list" where
  "presets =
     [(''A3'', \<lparr>width = 297, height = 420\<rparr>),
      (''A4'', \<lparr>width = 210, height = 297\<rparr>),
      (''A5'', \<lparr>width = 148, height = 210\<rparr>),
      (''Letter'', \<lparr>width = 216, height = 279\<rparr>),
      (''Legal'', \<lparr>width = 216, height = 356\<rparr>),
      (''Tabloid'', \<lparr>width = 279, height = 432\<rparr>)]"

definition paperDimensions :: "string \<Rightarrow> lookup" where
  "paperDimensions key =
     (case map_of presets key of
        Some d \<Rightarrow> Own d
      | None \<Rightarrow> if key \<in> set objectPrototypeKeys then Inherited else Absent)"

subsection \<open>Reading the settings (lines 81 to 90)\<close>

text \<open>
  \<open>x || d\<close> yields \<open>d\<close> when \<open>x\<close> is falsy: \<open>undefined\<close> for an object, also \<open>0\<close> for a
  number and the empty string for a string.
\<close>

definition orObject :: "'b option \<Rightarrow> 'b \<Rightarrow> 'b" where
  "orObject x d = (case x of None \<Rightarrow> d | Some v \<Rightarrow> v)"

definition orNumber :: "int option \<Rightarrow> int \<Rightarrow> int" where
  "orNumber x d = (case x of None \<Rightarrow> d | Some v \<Rightarrow> if v = 0 then d else v)"

definition orString :: "string option \<Rightarrow> string \<Rightarrow> string" where
  "orString x d = (case x of None \<Rightarrow> d | Some v \<Rightarrow> if v = [] then d else v)"

definition marginOf :: "PrintSettings \<Rightarrow> Margin" where
  "marginOf s = orObject (margin s) \<lparr>m_top = 10, m_bottom = 10, m_left = 10, m_right = 10\<rparr>"

definition printerMarginOf :: "PrintSettings \<Rightarrow> Margin" where
  "printerMarginOf s =
     orObject (printerMargin s) \<lparr>m_top = 5, m_bottom = 5, m_left = 5, m_right = 5\<rparr>"

definition spacingOf :: "PrintSettings \<Rightarrow> Spacing" where
  "spacingOf s = orObject (spacing s) \<lparr>horizontal = 0, vertical = 0\<rparr>"

definition paperColumns :: "PrintSettings \<Rightarrow> int" where
  "paperColumns s = orNumber (columns s) 3"

definition paperRows :: "PrintSettings \<Rightarrow> int" where
  "paperRows s = orNumber (rows s) 8"

definition skipItemsOf :: "PrintSettings \<Rightarrow> int" where
  "skipItemsOf s = orNumber (skipItems s) 0"

definition itemCopiesOf :: "PrintSettings \<Rightarrow> int" where
  "itemCopiesOf s = orNumber (itemCopies s) 1"

definition paperSizeOf :: "PrintSettings \<Rightarrow> string" where
  "paperSizeOf s = orString (paperSize s) ''A4''"

definition customPaperSizeOf :: "PrintSettings \<Rightarrow> PaperDimensions" where
  "customPaperSizeOf s = orObject (customPaperSize s) \<lparr>width = 210, height = 297\<rparr>"

definition borderShowModeOf :: "PrintSettings \<Rightarrow> BorderShowMode" where
  "borderShowModeOf s = orObject (borderShowMode s) BorderGrid"

subsection \<open>Paper and item dimensions (lines 92 to 98)\<close>

definition paperWidth :: "PrintSettings \<Rightarrow> error + rat option" where
  "paperWidth s =
     (if paperSizeOf s = ''custom'' then Inr (Some (width (customPaperSizeOf s)))
      else case paperDimensions (paperSizeOf s) of
             Own d \<Rightarrow> Inr (Some (width d))
           | Inherited \<Rightarrow> Inr None
           | Absent \<Rightarrow> Inl TypeError)"

definition paperHeight :: "PrintSettings \<Rightarrow> error + rat option" where
  "paperHeight s =
     (if paperSizeOf s = ''custom'' then Inr (Some (height (customPaperSizeOf s)))
      else case paperDimensions (paperSizeOf s) of
             Own d \<Rightarrow> Inr (Some (height d))
           | Inherited \<Rightarrow> Inr None
           | Absent \<Rightarrow> Inl TypeError)"

definition itemWidth :: "PrintSettings \<Rightarrow> rat option \<Rightarrow> rat option" where
  "itemWidth s pw =
     map_option
       (\<lambda>w. (w - m_left (marginOf s) - m_right (marginOf s) - horizontal (spacingOf s))
              / of_int (paperColumns s) - horizontal (spacingOf s)) pw"

definition itemHeight :: "PrintSettings \<Rightarrow> rat option \<Rightarrow> rat option" where
  "itemHeight s ph =
     map_option
       (\<lambda>h. (h - m_top (marginOf s) - m_bottom (marginOf s) - vertical (spacingOf s))
              / of_int (paperRows s) - vertical (spacingOf s)) ph"

subsection \<open>The expanded sequence (lines 103 to 108)\<close>

text \<open>\<open>Array(n)\<close> throws a RangeError unless \<open>n\<close> is an unsigned 32-bit integer.\<close>

definition skipped :: "int \<Rightarrow> error + 'a content list" where
  "skipped n =
     (if n < 0 \<or> 2 ^ 32 \<le> n then Inl RangeError else Inr (replicate (nat n) Placeholder))"

function pushCopies :: "'a \<Rightarrow> int \<Rightarrow> int \<Rightarrow> 'a content list \<Rightarrow> 'a content list" where
  "pushCopies item copies i acc =
     (if i < copies then pushCopies item copies (i + 1) (acc @ [Item item]) else acc)"
  by pat_completeness auto
termination
  by (relation "measure (\<lambda>(item, copies, i, acc). nat (copies - i))") auto

declare pushCopies.simps [simp del]

fun pushItems :: "'a list \<Rightarrow> int \<Rightarrow> 'a content list \<Rightarrow> 'a content list" where
  "pushItems [] copies acc = acc"
| "pushItems (item # items) copies acc = pushItems items copies (pushCopies item copies 0 acc)"

definition itemsIncludingSkipped :: "PrintSettings \<Rightarrow> 'a list \<Rightarrow> error + 'a content list" where
  "itemsIncludingSkipped s items =
     (case skipped (skipItemsOf s) of
        Inl e \<Rightarrow> Inl e
      | Inr acc \<Rightarrow> Inr (pushItems items (itemCopiesOf s) acc))"

subsection \<open>Rows and pages (lines 110 to 118)\<close>

text \<open>
  \<open>xs.slice(start, end)\<close>: a negative index counts from the end, and both are cut to the
  length of the array.
\<close>

definition slice :: "'b list \<Rightarrow> int \<Rightarrow> int \<Rightarrow> 'b list" where
  "slice xs start end =
     (let len = int (length xs);
          k = (if start < 0 then max (len + start) 0 else min start len);
          final = (if end < 0 then max (len + end) 0 else min end len)
      in take (nat (final - k)) (drop (nat k) xs))"

text \<open>
  The loop test \<open>idx < xs.length / per\<close>. A positive length divided by zero is
  \<open>Infinity\<close>, and zero divided by zero is \<open>NaN\<close>, which compares false.
\<close>

definition belowQuotient :: "nat \<Rightarrow> nat \<Rightarrow> int \<Rightarrow> bool" where
  "belowQuotient idx len per =
     (if per = 0 then 0 < len else (of_nat idx :: rat) < of_nat len / of_int per)"

text \<open>
  The two loops of lines 111 and 116 are the same loop, over the items with
  \<open>itemsPerRow\<close> and over the rows with \<open>rowsPerPage\<close>. With \<open>per = 0\<close> and a non-empty
  list the loop does not end: the result \<open>None\<close>.
\<close>

partial_function (option) sliceLoop ::
  "'b list \<Rightarrow> int \<Rightarrow> nat \<Rightarrow> 'b list list \<Rightarrow> 'b list list option" where
  "sliceLoop xs per idx acc =
     (if belowQuotient idx (length xs) per
      then sliceLoop xs per (idx + 1)
             (acc @ [slice xs (int idx * per) ((int idx + 1) * per)])
      else Some acc)"

declare sliceLoop.simps [code]

definition rowsOfItems :: "'b list \<Rightarrow> int \<Rightarrow> 'b list list option" where
  "rowsOfItems itemsAll itemsPerRow = sliceLoop itemsAll itemsPerRow 0 []"

definition pageBlocks :: "'b list list \<Rightarrow> int \<Rightarrow> 'b list list list option" where
  "pageBlocks rowsAll rowsPerPage = sliceLoop rowsAll rowsPerPage 0 []"

subsection \<open>The pages (lines 120 to 182)\<close>

text \<open>
  \<open>xs.map((x, i) => f x i)\<close>. A cell is the \<open>div\<close> of lines 127 to 141 with its
  style, a page the two \<open>div\<close>s of lines 150 to 180. Of the style of a page, the
  constant attributes and the four CSS margins of the area (strings built from the margin
  and the border mode) are left out; the keys are the indices.
\<close>

definition mapIdx :: "('b \<Rightarrow> nat \<Rightarrow> 'c) \<Rightarrow> 'b list \<Rightarrow> 'c list" where
  "mapIdx f xs = map (\<lambda>(i, x). f x i) (enumerate 0 xs)"

definition cell ::
  "PrintSettings \<Rightarrow> rat option \<Rightarrow> rat option \<Rightarrow> nat \<Rightarrow> 'a content \<Rightarrow> nat \<Rightarrow> 'a Cell" where
  "cell s pw ph rowIdx item colIdx =
     \<lparr>cell_width = itemWidth s pw,
      cell_height = itemHeight s ph,
      cell_border = (if borderShowModeOf s = BorderGrid then ''1px solid #000'' else ''none''),
      paddingLeft =
        (if colIdx = 0 then max (m_left (printerMarginOf s) - m_left (marginOf s)) 0 else 0),
      paddingRight =
        (if int colIdx = paperColumns s - 1
         then max (m_right (printerMarginOf s) - m_right (marginOf s)) 0 else 0),
      paddingTop =
        (if rowIdx = 0 then max (m_top (printerMarginOf s) - m_top (marginOf s)) 0 else 0),
      paddingBottom =
        (if int rowIdx = paperRows s - 1
         then max (m_bottom (printerMarginOf s) - m_bottom (marginOf s)) 0 else 0),
      cell_content = item\<rparr>"

definition page ::
  "PrintSettings \<Rightarrow> rat option \<Rightarrow> rat option \<Rightarrow> 'a content list list \<Rightarrow> nat \<Rightarrow> 'a Page" where
  "page s pw ph rowsOfPage pageIdx =
     \<lparr>page_width = pw,
      page_height = ph,
      area_border = (if borderShowModeOf s \<noteq> BorderNone then ''1px solid #000'' else ''none''),
      area_width = map_option (\<lambda>w. w - m_left (marginOf s) - m_right (marginOf s)) pw,
      area_height = map_option (\<lambda>h. h - m_top (marginOf s) - m_bottom (marginOf s)) ph,
      itemRows = mapIdx (\<lambda>row rowIdx. mapIdx (cell s pw ph rowIdx) row) rowsOfPage\<rparr>"

text \<open>
  The whole computation, in the order of the source: the paper size is resolved first
  (line 92), then the skipped positions are allocated (line 103). The outer \<open>None\<close> is a
  loop that does not end.
\<close>

definition layout :: "PrintSettings \<Rightarrow> 'a list \<Rightarrow> (error + 'a Page list) option" where
  "layout s items =
     (case paperWidth s of
        Inl e \<Rightarrow> Some (Inl e)
      | Inr pw \<Rightarrow>
     (case paperHeight s of
        Inl e \<Rightarrow> Some (Inl e)
      | Inr ph \<Rightarrow>
     (case itemsIncludingSkipped s items of
        Inl e \<Rightarrow> Some (Inl e)
      | Inr itemsAll \<Rightarrow>
     (case rowsOfItems itemsAll (paperColumns s) of
        None \<Rightarrow> None
      | Some rowsAll \<Rightarrow>
     (case pageBlocks rowsAll (paperRows s) of
        None \<Rightarrow> None
      | Some blocks \<Rightarrow> Some (Inr (mapIdx (page s pw ph) blocks)))))))"

text \<open>All cells of all pages, page after page, row after row.\<close>

definition cellsOf :: "'a Page list \<Rightarrow> 'a Cell list" where
  "cellsOf pages = concat (concat (map itemRows pages))"

subsection \<open>The edit handlers (lines 264 to 267, and \<open>qrCodePrintingDialog.tsx\<close> lines 62 to 65)\<close>

text \<open>
  The handlers write to the object they were given, so objects are held in a store and
  named by reference. \<open>QRCodePrintSettings\<close> (declared in \<open>./printing\<close>, with the fields
  that \<open>qrCodePrintingDialog.tsx\<close> reads) holds a reference to its \<open>PrintSettings\<close>.
  \<open>setPrintSettings\<close> is a callback that the component is given, and a parameter of
  the handlers here.
\<close>

type_synonym ref = nat

record QRCodePrintSettings =
  showContent :: "bool option"
  textSize :: "rat option"
  showSpoolmanIcon :: "bool option"
  printSettings :: ref

record Store =
  printSettingsAt :: "ref \<Rightarrow> PrintSettings"
  qrSettingsAt :: "ref \<Rightarrow> QRCodePrintSettings"
  handedToHost :: "ref list"

text \<open>
  The body of the component reads the object behind the reference; lines 81 to 182 assign
  to no field of it.
\<close>

definition PrintingDialog :: "Store \<Rightarrow> ref \<Rightarrow> 'a list \<Rightarrow> (error + 'a Page list) option \<times> Store" where
  "PrintingDialog st ps items = (layout (printSettingsAt st ps) items, st)"

text \<open>\<open>printSettings.skipItems = value; setPrintSettings(printSettings);\<close>\<close>

definition skipItemsOnChange ::
  "(ref \<Rightarrow> Store \<Rightarrow> Store) \<Rightarrow> ref \<Rightarrow> int \<Rightarrow> Store \<Rightarrow> Store" where
  "skipItemsOnChange setPrintSettings ps v st =
     setPrintSettings ps
       (st\<lparr>printSettingsAt :=
             (printSettingsAt st)(ps := (printSettingsAt st ps)\<lparr>skipItems := Some v\<rparr>)\<rparr>)"

text \<open>\<open>printSettings.printSettings = newSettings; setPrintSettings(printSettings);\<close>\<close>

definition qrSetPrintSettings ::
  "(ref \<Rightarrow> Store \<Rightarrow> Store) \<Rightarrow> ref \<Rightarrow> ref \<Rightarrow> Store \<Rightarrow> Store" where
  "qrSetPrintSettings setPrintSettings qr newSettings st =
     setPrintSettings qr
       (st\<lparr>qrSettingsAt :=
             (qrSettingsAt st)(qr := (qrSettingsAt st qr)\<lparr>printSettings := newSettings\<rparr>)\<rparr>)"

text \<open>
  Modelled from the spec: the callback of the host (the SettingsStore of section 2, which
  receives the updated settings) is not among the source files; this one records the
  reference that it receives, in \<open>handedToHost\<close>.
\<close>

definition hostSetPrintSettings :: "ref \<Rightarrow> Store \<Rightarrow> Store" where
  "hostSetPrintSettings r st = st\<lparr>handedToHost := handedToHost st @ [r]\<rparr>"

subsection \<open>The specification's steps\<close>

text \<open>
  Step 3 of the specification: the skipped positions, then every item repeated, in the
  order of the input.
\<close>

definition expanded :: "int \<Rightarrow> int \<Rightarrow> 'a list \<Rightarrow> 'a content list" where
  "expanded S C items =
     replicate (nat S) Placeholder @ concat (map (\<lambda>item. replicate (nat C) (Item item)) items)"

text \<open>
  Steps 4 and 5 of the specification: consecutive groups of \<open>n\<close> elements, the last one
  possibly shorter.
\<close>

function chunk :: "nat \<Rightarrow> 'b list \<Rightarrow> 'b list list" where
  "chunk n xs = (if n = 0 \<or> xs = [] then [] else take n xs # chunk n (drop n xs))"
  by pat_completeness auto
termination
  by (relation "measure (\<lambda>(n, xs). length xs)") auto

declare chunk.simps [simp del]

text \<open>The defaults of section 3 of the specification, filled in where a field is missing.\<close>

definition withDefaults :: "PrintSettings \<Rightarrow> PrintSettings" where
  "withDefaults s =
     \<lparr>margin = Some (case margin s of None \<Rightarrow> \<lparr>m_top = 10, m_bottom = 10, m_left = 10, m_right = 10\<rparr> | Some m \<Rightarrow> m),
      printerMargin = Some (case printerMargin s of None \<Rightarrow> \<lparr>m_top = 5, m_bottom = 5, m_left = 5, m_right = 5\<rparr> | Some m \<Rightarrow> m),
      spacing = Some (case spacing s of None \<Rightarrow> \<lparr>horizontal = 0, vertical = 0\<rparr> | Some sp \<Rightarrow> sp),
      columns = Some (case columns s of None \<Rightarrow> 3 | Some c \<Rightarrow> c),
      rows = Some (case rows s of None \<Rightarrow> 8 | Some r \<Rightarrow> r),
      skipItems = Some (case skipItems s of None \<Rightarrow> 0 | Some k \<Rightarrow> k),
      itemCopies = Some (case itemCopies s of None \<Rightarrow> 1 | Some c \<Rightarrow> c),
      paperSize = Some (case paperSize s of None \<Rightarrow> ''A4'' | Some p \<Rightarrow> p),
      customPaperSize = Some (case customPaperSize s of None \<Rightarrow> \<lparr>width = 210, height = 297\<rparr> | Some d \<Rightarrow> d),
      borderShowMode = Some (case borderShowMode s of None \<Rightarrow> BorderGrid | Some b \<Rightarrow> b)\<rparr>"

subsection \<open>Sample inputs\<close>

text \<open>A settings object with no field set, and a store that holds it at reference 0.\<close>

definition unset :: PrintSettings where
  "unset =
     \<lparr>margin = None, printerMargin = None, spacing = None, columns = None, rows = None,
      skipItems = None, itemCopies = None, paperSize = None, customPaperSize = None,
      borderShowMode = None\<rparr>"

definition store0 :: Store where
  "store0 =
     \<lparr>printSettingsAt = (\<lambda>r. unset),
      qrSettingsAt =
        (\<lambda>r. \<lparr>showContent = None, textSize = None, showSpoolmanIcon = None, printSettings = 0\<rparr>),
      handedToHost = []\<rparr>"

section \<open>Properties of the loops\<close>

text \<open>
  The loops in closed form: the copies of an item, and the rows and pages as the
  consecutive groups of the specification.
\<close>

lemma pushCopies_eq: "pushCopies item copies i acc = acc @ replicate (nat (copies - i)) (Item item)"
proof (induction item copies i acc rule: pushCopies.induct)
  case (1 item copies i acc)
  show ?case
  proof (cases "i < copies")
    case True
    then have "nat (copies - i) = Suc (nat (copies - (i + 1)))" by simp
    with True 1 show ?thesis
      by (subst pushCopies.simps) (simp add: replicate_app_Cons_same)
  next
    case False
    then show ?thesis by (subst pushCopies.simps) simp
  qed
qed

lemma pushItems_eq:
  "pushItems items copies acc = acc @ concat (map (\<lambda>it. replicate (nat copies) (Item it)) items)"
  by (induction items arbitrary: acc) (simp_all add: pushCopies_eq)


lemma belowQuotient_pos:
  "0 < per \<Longrightarrow> belowQuotient idx len per \<longleftrightarrow> idx * nat per < len"
proof -
  assume p: "0 < per"
  have "(of_nat idx :: rat) < of_nat len / of_int per \<longleftrightarrow> (of_nat idx :: rat) * of_int per < of_nat len"
    using p by (simp add: pos_less_divide_eq)
  also have "\<dots> \<longleftrightarrow> int idx * per < int len"
    by (metis of_int_less_iff of_int_mult of_int_of_nat_eq)
  also have "\<dots> \<longleftrightarrow> idx * nat per < len"
    using p by (metis int_nat_eq less_le_not_le of_nat_less_iff of_nat_mult)
  finally show ?thesis using p by (simp add: belowQuotient_def)
qed

lemma belowQuotient_neg: "per < 0 \<Longrightarrow> \<not> belowQuotient idx len per"
proof -
  assume p: "per < 0"
  have "(of_nat idx :: rat) * of_int per \<le> 0"
    using p by (simp add: mult_nonneg_nonpos)
  also have "(0 :: rat) \<le> of_nat len" by simp
  finally show ?thesis
    using p by (simp add: belowQuotient_def neg_less_divide_eq not_less)
qed

lemma slice_nat:
  "slice xs (int a) (int b) =
   take (min b (length xs) - min a (length xs)) (drop (min a (length xs)) xs)"
proof -
  have 1: "min (int a) (int (length xs)) = int (min a (length xs))"
    and 2: "min (int b) (int (length xs)) = int (min b (length xs))"
    by (simp_all add: min_def)
  have 3: "nat (int (min b (length xs)) - int (min a (length xs))) =
           min b (length xs) - min a (length xs)"
    by arith
  show ?thesis
    unfolding slice_def Let_def 1 2 by (simp only: of_nat_less_0_iff if_False 1 2 3 nat_int)
qed

lemma slice_chunk:
  assumes "0 < per" "idx * nat per < length xs"
  shows "slice xs (int idx * per) ((int idx + 1) * per) = take (nat per) (drop (idx * nat per) xs)"
proof -
  define n where "n = nat per"
  have per: "per = int n" using assms(1) by (simp add: n_def)
  have a: "int idx * per = int (idx * n)" by (simp add: per)
  have b: "(int idx + 1) * per = int (idx * n + n)" by (simp add: per algebra_simps)
  have lt: "idx * n < length xs" using assms(2) by (simp add: n_def)
  have "take (min (idx * n + n) (length xs) - min (idx * n) (length xs))
          (drop (min (idx * n) (length xs)) xs) = take n (drop (idx * n) xs)"
    using lt by (cases "idx * n + n \<le> length xs") (simp_all add: min_def)
  then show ?thesis
    unfolding a b slice_nat n_def [symmetric] .
qed

lemma chunk_Nil [simp]: "chunk n [] = []"
  by (simp add: chunk.simps)

lemma chunk_step: "0 < n \<Longrightarrow> xs \<noteq> [] \<Longrightarrow> chunk n xs = take n xs # chunk n (drop n xs)"
  by (subst chunk.simps) simp

lemma sliceLoop_pos:
  assumes p: "0 < per"
  shows "sliceLoop xs per idx acc = Some (acc @ chunk (nat per) (drop (idx * nat per) xs))"
proof (induction "length xs - idx * nat per" arbitrary: idx acc rule: less_induct)
  case less
  show ?case
  proof (cases "idx * nat per < length xs")
    case True
    have np: "0 < nat per" using p by simp
    have ne: "drop (idx * nat per) xs \<noteq> []" using True by simp
    have m: "length xs - (idx + 1) * nat per < length xs - idx * nat per"
      using True np by simp
    have "sliceLoop xs per idx acc =
          sliceLoop xs per (idx + 1) (acc @ [take (nat per) (drop (idx * nat per) xs)])"
      by (subst sliceLoop.simps) (simp add: belowQuotient_pos [OF p] True slice_chunk [OF p True])
    also have "\<dots> = Some ((acc @ [take (nat per) (drop (idx * nat per) xs)]) @
                        chunk (nat per) (drop ((idx + 1) * nat per) xs))"
      by (rule less [OF m])
    also have "drop ((idx + 1) * nat per) xs = drop (nat per) (drop (idx * nat per) xs)"
      by (simp add: add.commute)
    finally show ?thesis
      by (simp add: chunk_step [OF np ne])
  next
    case False
    then have "drop (idx * nat per) xs = []" by simp
    moreover have "sliceLoop xs per idx acc = Some acc"
      by (subst sliceLoop.simps) (simp add: belowQuotient_pos [OF p] False)
    ultimately show ?thesis by simp
  qed
qed

lemma sliceLoop_neg: "per < 0 \<Longrightarrow> sliceLoop xs per idx acc = Some acc"
  by (subst sliceLoop.simps) (simp add: belowQuotient_neg)

lemma concat_chunk: "0 < n \<Longrightarrow> concat (chunk n xs) = xs"
proof (induction n xs rule: chunk.induct)
  case (1 n xs)
  then show ?case by (cases "xs = []") (simp_all add: chunk_step)
qed

lemma length_chunk: "0 < n \<Longrightarrow> length (chunk n xs) = (length xs + n - 1) div n"
proof (induction n xs rule: chunk.induct)
  case (1 n xs)
  show ?case
  proof (cases "xs = []")
    case True
    then show ?thesis using 1(2) by simp
  next
    case False
    then obtain k where k: "length xs = Suc k" by (cases xs) auto
    have "length (chunk n xs) = Suc ((length xs - n + n - 1) div n)"
      using 1 False by (simp add: chunk_step)
    also have "\<dots> = (k + n) div n"
    proof (cases "n \<le> length xs")
      case True
      then have "length xs - n + n - 1 = k" using k by simp
      then show ?thesis using 1(2) by simp
    next
      case False
      then have "length xs - n + n - 1 = n - 1" "k < n"
        using k by simp_all
      then show ?thesis using 1(2) by simp
    qed
    also have "k + n = length xs + n - 1" using k by simp
    finally show ?thesis .
  qed
qed

lemma nth_chunk:
  "0 < n \<Longrightarrow> i < length (chunk n xs) \<Longrightarrow> chunk n xs ! i = take n (drop (i * n) xs)"
proof (induction n xs arbitrary: i rule: chunk.induct)
  case (1 n xs)
  show ?case
  proof (cases "xs = []")
    case True
    then show ?thesis using 1(3) by simp
  next
    case False
    show ?thesis
    proof (cases i)
      case 0
      then show ?thesis using False 1(2) by (simp add: chunk_step)
    next
      case (Suc j)
      then have "j < length (chunk n (drop n xs))"
        using 1(3) False 1(2) by (simp add: chunk_step)
      then have "chunk n (drop n xs) ! j = take n (drop (j * n) (drop n xs))"
        using 1(1) False 1(2) by simp
      then show ?thesis using Suc False 1(2) by (simp add: chunk_step add.commute)
    qed
  qed
qed

lemma length_chunk_le:
  "0 < n \<Longrightarrow> i < length (chunk n xs) \<Longrightarrow> length (chunk n xs ! i) \<le> n"
  by (simp add: nth_chunk)

lemma div_bound: "0 < n \<Longrightarrow> i < m div n \<Longrightarrow> Suc i * n \<le> (m :: nat)"
proof -
  assume n: "0 < n" and "i < m div n"
  then have "Suc i \<le> m div n" by simp
  then show ?thesis by (rule less_eq_div_iff_mult_less_eq [OF n, THEN iffD1])
qed

lemma length_nth_chunk:
  assumes "0 < n" "Suc i < length (chunk n xs)"
  shows "length (chunk n xs ! i) = n"
proof -
  have "Suc i < (length xs + n - 1) div n"
    using assms by (simp add: length_chunk)
  then have "Suc (Suc i) * n \<le> length xs + n - 1"
    by (rule div_bound [OF assms(1)])
  then have "i * n + n \<le> length xs" using assms(1) by simp
  moreover have "chunk n xs ! i = take n (drop (i * n) xs)"
    using assms by (simp add: nth_chunk)
  ultimately show ?thesis by simp
qed

lemma chunk_nonempty:
  assumes "0 < n" "i < length (chunk n xs)"
  shows "chunk n xs ! i \<noteq> []"
proof -
  have "i < (length xs + n - 1) div n"
    using assms by (simp add: length_chunk)
  then have "Suc i * n \<le> length xs + n - 1"
    by (rule div_bound [OF assms(1)])
  then have "i * n < length xs" using assms(1) by simp
  then show ?thesis using assms by (simp add: nth_chunk)
qed

lemma neg_div_ceiling:
  fixes a b :: int
  assumes "0 < b"
  shows "- (- a div b) = (a + b - 1) div b"
proof -
  define q where "q = (a + b - 1) div b"
  define m where "m = (a + b - 1) mod b"
  have e: "a + b - 1 = b * q + m" by (simp add: q_def m_def)
  have m: "0 \<le> m" "m < b" using assms by (simp_all add: m_def)
  have "- a = b * (- q) + (b - 1 - m)" using e by simp
  then have "- a div b = - q"
    using m by (intro int_div_pos_eq [where r = "b - 1 - m"]) auto
  then show ?thesis by (simp add: q_def)
qed

lemma ceiling_quotient:
  assumes "0 < n"
  shows "\<lceil>(of_nat L :: rat) / of_nat n\<rceil> = int ((L + n - 1) div n)"
proof -
  have "\<lceil>(of_nat L :: rat) / of_nat n\<rceil> = \<lceil>(of_int (int L) :: rat) / of_int (int n)\<rceil>"
    by simp
  also have "\<dots> = - (- int L div int n)"
    by (rule ceiling_divide_eq_div)
  also have "\<dots> = (int L + int n - 1) div int n"
    using assms by (simp add: neg_div_ceiling)
  also have "int L + int n - 1 = int (L + n - 1)"
    using assms by simp
  finally show ?thesis by (simp add: zdiv_int)
qed

section \<open>The layout in closed form\<close>

text \<open>The equations that read a settings object, and those that build the pages.\<close>

lemmas reading =
  marginOf_def printerMarginOf_def spacingOf_def paperColumns_def paperRows_def
  skipItemsOf_def itemCopiesOf_def borderShowModeOf_def paperWidth_def paperHeight_def
  paperSizeOf_def customPaperSizeOf_def orObject_def orNumber_def orString_def

lemmas settings_eval =
  unset_def paperColumns_def paperRows_def skipItemsOf_def itemCopiesOf_def orNumber_def
  paperWidth_def paperHeight_def paperSizeOf_def orString_def paperDimensions_def presets_def
  customPaperSizeOf_def marginOf_def printerMarginOf_def spacingOf_def borderShowModeOf_def
  orObject_def

lemmas pages_eval =
  mapIdx_def page_def cell_def itemWidth_def itemHeight_def expanded_def chunk.simps

text \<open>
  \<open>columns || 3\<close> and \<open>rows || 8\<close> are never 0, so the loops always end: the layout
  returns for every settings object and every list of items.
\<close>

lemma paperColumns_nonzero: "paperColumns s \<noteq> 0"
  by (simp add: paperColumns_def orNumber_def split: option.split)

lemma paperRows_nonzero: "paperRows s \<noteq> 0"
  by (simp add: paperRows_def orNumber_def split: option.split)

lemma rowsOfItems_pos: "0 < per \<Longrightarrow> rowsOfItems xs per = Some (chunk (nat per) xs)"
  using sliceLoop_pos [of per xs 0 "[]"] by (simp add: rowsOfItems_def)

lemma rowsOfItems_neg: "per < 0 \<Longrightarrow> rowsOfItems xs per = Some []"
  by (simp add: rowsOfItems_def sliceLoop_neg)

lemma pageBlocks_pos: "0 < per \<Longrightarrow> pageBlocks xs per = Some (chunk (nat per) xs)"
  using sliceLoop_pos [of per xs 0 "[]"] by (simp add: pageBlocks_def)

lemma pageBlocks_neg: "per < 0 \<Longrightarrow> pageBlocks xs per = Some []"
  by (simp add: pageBlocks_def sliceLoop_neg)

lemma pageBlocks_Nil: "pageBlocks [] per = Some []"
  unfolding pageBlocks_def by (subst sliceLoop.simps) (simp add: belowQuotient_def)

lemma itemsIncludingSkipped_eq:
  "0 \<le> skipItemsOf s \<Longrightarrow> skipItemsOf s < 2 ^ 32 \<Longrightarrow>
   itemsIncludingSkipped s items = Inr (expanded (skipItemsOf s) (itemCopiesOf s) items)"
  by (simp add: itemsIncludingSkipped_def skipped_def expanded_def pushItems_eq)


lemma presets_keys:
  "map_of presets p = None \<longleftrightarrow>
   p \<notin> {''A3'', ''A4'', ''A5'', ''Letter'', ''Legal'', ''Tabloid''}"
  by (simp add: presets_def)

lemma layout_pos:
  assumes "paperWidth s = Inr pw" "paperHeight s = Inr ph"
    and "0 \<le> skipItemsOf s" "skipItemsOf s < 2 ^ 32"
    and "0 < paperColumns s" "0 < paperRows s"
  shows "layout s items =
           Some (Inr (mapIdx (page s pw ph)
             (chunk (nat (paperRows s))
               (chunk (nat (paperColumns s))
                 (expanded (skipItemsOf s) (itemCopiesOf s) items)))))"
  using assms
  by (simp add: layout_def itemsIncludingSkipped_eq rowsOfItems_pos pageBlocks_pos)

lemma layout_neg:
  assumes "paperWidth s = Inr pw" "paperHeight s = Inr ph"
    and "0 \<le> skipItemsOf s" "skipItemsOf s < 2 ^ 32"
    and "paperColumns s < 0 \<or> paperRows s < 0"
  shows "layout s items = Some (Inr [])"
proof (cases "paperColumns s < 0")
  case True
  then show ?thesis using assms(1-4)
    by (simp add: layout_def itemsIncludingSkipped_eq rowsOfItems_neg pageBlocks_Nil mapIdx_def)
next
  case False
  then have c: "0 < paperColumns s" and r: "paperRows s < 0"
    using assms(5) paperColumns_nonzero [of s] by auto
  show ?thesis using assms(1-4) c r
    by (simp add: layout_def itemsIncludingSkipped_eq rowsOfItems_pos pageBlocks_neg mapIdx_def)
qed

lemma layout_returns: "layout s items \<noteq> None"
proof (cases "paperColumns s < 0")
  case True
  then show ?thesis
    by (auto simp: layout_def rowsOfItems_neg pageBlocks_Nil split: sum.splits)
next
  case False
  then have c: "0 < paperColumns s" using paperColumns_nonzero [of s] by auto
  have "paperRows s < 0 \<or> 0 < paperRows s" using paperRows_nonzero [of s] by auto
  then show ?thesis using c
    by (auto simp: layout_def rowsOfItems_pos pageBlocks_pos pageBlocks_neg split: sum.splits)
qed


lemma layout_Inr:
  assumes "layout s items = Some (Inr pages)" "paperWidth s = Inr pw" "paperHeight s = Inr ph"
    and "pages \<noteq> []"
  shows "0 < paperColumns s \<and> 0 < paperRows s \<and>
         pages = mapIdx (page s pw ph)
           (chunk (nat (paperRows s)) (chunk (nat (paperColumns s))
              (expanded (skipItemsOf s) (itemCopiesOf s) items)))"
proof -
  have sk: "0 \<le> skipItemsOf s" "skipItemsOf s < 2 ^ 32"
    using assms(1-3)
    by (auto simp: layout_def itemsIncludingSkipped_def skipped_def
        split: sum.splits option.splits if_splits)
  have pos: "0 < paperColumns s \<and> 0 < paperRows s"
  proof (rule ccontr)
    assume "\<not> ?thesis"
    then have "paperColumns s < 0 \<or> paperRows s < 0"
      using paperColumns_nonzero [of s] paperRows_nonzero [of s] by auto
    then have "layout s items = Some (Inr [])"
      using layout_neg [OF assms(2,3) sk] by simp
    then show False using assms(1,4) by simp
  qed
  then show ?thesis
    using layout_pos [OF assms(2,3) sk, of items] assms(1) by simp
qed

text \<open>
  The layout reads its settings only through the ten values of lines 81 to 93.
\<close>

lemma paperSize_columns [simp]:
  "paperWidth (s\<lparr>columns := c\<rparr>) = paperWidth s" "paperHeight (s\<lparr>columns := c\<rparr>) = paperHeight s"
  "paperWidth (s\<lparr>rows := r\<rparr>) = paperWidth s" "paperHeight (s\<lparr>rows := r\<rparr>) = paperHeight s"
  by (simp_all add: paperWidth_def paperHeight_def paperSizeOf_def customPaperSizeOf_def)

lemma layout_cong:
  assumes "paperWidth s = paperWidth t" "paperHeight s = paperHeight t"
    and "marginOf s = marginOf t" "printerMarginOf s = printerMarginOf t"
    and "spacingOf s = spacingOf t" "paperColumns s = paperColumns t"
    and "paperRows s = paperRows t" "skipItemsOf s = skipItemsOf t"
    and "itemCopiesOf s = itemCopiesOf t" "borderShowModeOf s = borderShowModeOf t"
  shows "layout s items = layout t items"
proof -
  have i: "itemsIncludingSkipped s items = itemsIncludingSkipped t items"
    by (simp add: itemsIncludingSkipped_def assms split: sum.split)
  have c: "cell s = cell t"
    by (intro ext) (simp add: cell_def itemWidth_def itemHeight_def assms)
  have p: "page s = page t"
    by (intro ext) (simp add: page_def assms c)
  show ?thesis
    by (simp add: layout_def assms i p split: sum.split option.split)
qed

text \<open>The cells of the pages and what they hold.\<close>

lemma length_mapIdx [simp]: "length (mapIdx f xs) = length xs"
  by (simp add: mapIdx_def)

lemma nth_mapIdx: "i < length xs \<Longrightarrow> mapIdx f xs ! i = f (xs ! i) i"
  by (simp add: mapIdx_def nth_enumerate_eq)






lemma cell_of_pages:
  "c \<in> set (cellsOf (mapIdx (page s pw ph) blocks)) \<Longrightarrow>
   \<exists>rowIdx item colIdx. c = cell s pw ph rowIdx item colIdx"
  by (auto simp: cellsOf_def mapIdx_def page_def) blast

lemma layout_cells:
  assumes "layout s items = Some (Inr pages)" "paperWidth s = Inr pw" "paperHeight s = Inr ph"
    and "c \<in> set (cellsOf pages)"
  shows "\<exists>rowIdx item colIdx. c = cell s pw ph rowIdx item colIdx"
proof -
  obtain blocks where "pages = mapIdx (page s pw ph) blocks"
    using assms(1-3) by (auto simp: layout_def split: sum.splits option.splits)
  then show ?thesis using assms(4) cell_of_pages by blast
qed

section \<open>The claims\<close>

subsection \<open>C1: the order of the cells\<close>




subsection \<open>C2: no columns or no rows\<close>




subsection \<open>C3: the dimensions of a cell are not clamped\<close>




subsection \<open>C4: the formula of the cell dimensions\<close>

text \<open>
  C4, as stated, fails at its own example: with a paper width of 210, margins of 10 left
  and right, a horizontal spacing of 2 and 3 columns the width is
  \<open>(210 - 10 - 10 - 2) / 3 - 2 = 182 / 3\<close>, that is 60.666..., and not 58.666...
\<close>

theorem example_width_counterexample:
  "itemWidth (unset\<lparr>margin := Some \<lparr>m_top = 10, m_bottom = 10, m_left = 10, m_right = 10\<rparr>,
                     spacing := Some \<lparr>horizontal = 2, vertical = 0\<rparr>,
                     columns := Some 3\<rparr>) (Some 210) = Some (182 / 3) \<and>
   \<not> (182 / 3 < (59 :: rat))"
  by (simp add: settings_eval itemWidth_def)

text \<open>
  C4, amended. Every cell of the layout has the width
  \<open>(paperWidth - margin.left - margin.right - spacing.horizontal) / columns - spacing.horizontal\<close>
  and the height
  \<open>(paperHeight - margin.top - margin.bottom - spacing.vertical) / rows - spacing.vertical\<close>,
  with the margin, the spacing, the columns and the rows as the component reads them: the
  field where it is set (and, for the columns and the rows, not 0), its default otherwise.
  The spacing is subtracted before the division and again after it. In the example the
  width is \<open>182 / 3\<close>, that is 60.666...
\<close>

theorem cell_dimension_formula:
  assumes "paperWidth s = Inr (Some w)" "paperHeight s = Inr (Some h)"
    and "layout s items = Some (Inr pages)"
  shows "(\<forall>x \<in> set (cellsOf pages).
            cell_width x =
              Some ((w - m_left (marginOf s) - m_right (marginOf s) - horizontal (spacingOf s))
                    / of_int (paperColumns s) - horizontal (spacingOf s)) \<and>
            cell_height x =
              Some ((h - m_top (marginOf s) - m_bottom (marginOf s) - vertical (spacingOf s))
                    / of_int (paperRows s) - vertical (spacingOf s))) \<and>
         (\<forall>m. margin s = Some m \<longrightarrow> marginOf s = m) \<and>
         (\<forall>sp. spacing s = Some sp \<longrightarrow> spacingOf s = sp) \<and>
         (\<forall>c. columns s = Some c \<longrightarrow> c \<noteq> 0 \<longrightarrow> paperColumns s = c) \<and>
         (\<forall>r. rows s = Some r \<longrightarrow> r \<noteq> 0 \<longrightarrow> paperRows s = r) \<and>
         itemWidth (unset\<lparr>margin := Some \<lparr>m_top = 10, m_bottom = 10, m_left = 10, m_right = 10\<rparr>,
                     spacing := Some \<lparr>horizontal = 2, vertical = 0\<rparr>,
                     columns := Some 3\<rparr>) (Some 210) = Some (182 / 3)"
proof -
  have "cell_width x = itemWidth s (Some w) \<and> cell_height x = itemHeight s (Some h)"
    if "x \<in> set (cellsOf pages)" for x
    using layout_cells [OF assms(3,1,2) that] by (auto simp: cell_def)
  then have "\<forall>x \<in> set (cellsOf pages).
            cell_width x =
              Some ((w - m_left (marginOf s) - m_right (marginOf s) - horizontal (spacingOf s))
                    / of_int (paperColumns s) - horizontal (spacingOf s)) \<and>
            cell_height x =
              Some ((h - m_top (marginOf s) - m_bottom (marginOf s) - vertical (spacingOf s))
                    / of_int (paperRows s) - vertical (spacingOf s))"
    by (simp add: itemWidth_def itemHeight_def)
  moreover have "itemWidth
      (unset\<lparr>margin := Some \<lparr>m_top = 10, m_bottom = 10, m_left = 10, m_right = 10\<rparr>,
              spacing := Some \<lparr>horizontal = 2, vertical = 0\<rparr>,
              columns := Some 3\<rparr>) (Some 210) = Some (182 / 3)"
    by (simp add: settings_eval itemWidth_def)
  ultimately show ?thesis
    by (simp add: marginOf_def spacingOf_def paperColumns_def paperRows_def orObject_def
        orNumber_def)
qed

theorem cell_dimension_formula_witness:
  "\<exists>pages.
     layout (unset\<lparr>margin := Some \<lparr>m_top = 10, m_bottom = 10, m_left = 10, m_right = 10\<rparr>,
                    spacing := Some \<lparr>horizontal = 2, vertical = 0\<rparr>,
                    columns := Some 3, rows := Some 8\<rparr>) [1 :: nat] = Some (Inr pages) \<and>
     list_all (\<lambda>x. cell_width x = Some (182 / 3) \<and> cell_height x = Some (277 / 8))
       (cellsOf pages)"
proof -
  define s where "s = unset\<lparr>margin := Some \<lparr>m_top = 10, m_bottom = 10, m_left = 10, m_right = 10\<rparr>,
                  spacing := Some \<lparr>horizontal = 2, vertical = 0\<rparr>,
                  columns := Some 3, rows := Some 8\<rparr>"
  have pw: "paperWidth s = Inr (Some 210)" and ph: "paperHeight s = Inr (Some 297)"
    by (simp_all add: s_def settings_eval)
  obtain pages where l: "layout s [1 :: nat] = Some (Inr pages)"
    using layout_pos [OF pw ph, of "[1 :: nat]"] by (simp add: s_def settings_eval)
  have v: "marginOf s = \<lparr>m_top = 10, m_bottom = 10, m_left = 10, m_right = 10\<rparr>"
    "spacingOf s = \<lparr>horizontal = 2, vertical = 0\<rparr>" "paperColumns s = 3" "paperRows s = 8"
    by (simp_all add: s_def settings_eval)
  have "list_all (\<lambda>x. cell_width x = Some (182 / 3) \<and> cell_height x = Some (277 / 8))
          (cellsOf pages)"
    using cell_dimension_formula [OF pw ph l, THEN conjunct1]
    by (simp add: v list_all_iff)
  with l show ?thesis unfolding s_def by blast
qed

subsection \<open>C5: rows and pages\<close>

text \<open>
  C5. With at least one column and one row, the loops of lines 111 and 116 return: the
  rows are the consecutive groups of \<open>c\<close> elements of the sequence, \<open>ceil (L / c)\<close> of
  them, every one but the last of \<open>c\<close> elements and none empty; the pages are the
  consecutive groups of \<open>r\<close> rows, \<open>ceil (ceil (L / c) / r)\<close> of them, every one but the
  last of \<open>r\<close> rows and none empty. 25 items in 3 columns and 8 rows give 9 rows on 2 pages:
  8 rows with 24 items, then 1 row with the last item.
\<close>

theorem rows_and_pages:
  assumes "1 \<le> c" "1 \<le> r"
  shows "\<exists>R P. rowsOfItems xs c = Some R \<and> pageBlocks R r = Some P \<and>
           concat R = xs \<and>
           int (length R) = \<lceil>(of_nat (length xs) :: rat) / of_int c\<rceil> \<and>
           (\<forall>i < length R. R ! i = take (nat c) (drop (i * nat c) xs) \<and> R ! i \<noteq> []) \<and>
           (\<forall>i. Suc i < length R \<longrightarrow> int (length (R ! i)) = c) \<and>
           concat P = R \<and>
           int (length P) = \<lceil>(of_nat (length R) :: rat) / of_int r\<rceil> \<and>
           (\<forall>j < length P. P ! j = take (nat r) (drop (j * nat r) R) \<and> P ! j \<noteq> []) \<and>
           (\<forall>j. Suc j < length P \<longrightarrow> int (length (P ! j)) = r) \<and>
           Option.bind
             (rowsOfItems [1, 2, 3, 4, 5, 6, 7, 8, 9, 10, 11, 12, 13, 14, 15, 16, 17, 18, 19, 20,
                 21, 22, 23, 24, 25 :: nat] 3) (\<lambda>R. pageBlocks R 8) =
             Some [[[1, 2, 3], [4, 5, 6], [7, 8, 9], [10, 11, 12], [13, 14, 15],
                    [16, 17, 18], [19, 20, 21], [22, 23, 24]],
                   [[25]]]"
proof -
  have n: "0 < nat c" "int (nat c) = c" and k: "0 < nat r" "int (nat r) = r"
    using assms by simp_all
  let ?R = "chunk (nat c) xs"
  let ?P = "chunk (nat r) ?R"
  have 1: "rowsOfItems xs c = Some ?R" "pageBlocks ?R r = Some ?P"
    using assms by (simp_all add: rowsOfItems_pos pageBlocks_pos)
  have 2: "concat ?R = xs" "concat ?P = ?R"
    using n k by (simp_all add: concat_chunk)
  have 3: "int (length ?R) = \<lceil>(of_nat (length xs) :: rat) / of_int c\<rceil>"
    "int (length ?P) = \<lceil>(of_nat (length ?R) :: rat) / of_int r\<rceil>"
    using ceiling_quotient [OF n(1), of "length xs"] ceiling_quotient [OF k(1), of "length ?R"]
      n k by (simp_all add: length_chunk)
  have 4: "\<forall>i < length ?R. ?R ! i = take (nat c) (drop (i * nat c) xs) \<and> ?R ! i \<noteq> []"
    "\<forall>j < length ?P. ?P ! j = take (nat r) (drop (j * nat r) ?R) \<and> ?P ! j \<noteq> []"
    using nth_chunk [OF n(1)] chunk_nonempty [OF n(1)] nth_chunk [OF k(1)]
      chunk_nonempty [OF k(1)] by blast+
  have 5: "\<forall>i. Suc i < length ?R \<longrightarrow> int (length (?R ! i)) = c"
    "\<forall>j. Suc j < length ?P \<longrightarrow> int (length (?P ! j)) = r"
    using length_nth_chunk [OF n(1)] length_nth_chunk [OF k(1)] n(2) k(2) by metis+
  have 6: "Option.bind
             (rowsOfItems [1, 2, 3, 4, 5, 6, 7, 8, 9, 10, 11, 12, 13, 14, 15, 16, 17, 18, 19, 20,
                 21, 22, 23, 24, 25 :: nat] 3) (\<lambda>R. pageBlocks R 8) =
             Some [[[1, 2, 3], [4, 5, 6], [7, 8, 9], [10, 11, 12], [13, 14, 15],
                    [16, 17, 18], [19, 20, 21], [22, 23, 24]],
                   [[25]]]"
    by (simp add: rowsOfItems_pos pageBlocks_pos chunk.simps)
  show ?thesis
    using 1 2 3 4 5 6 by blast
qed

theorem rows_and_pages_witness:
  "\<exists>R P. rowsOfItems [1, 2, 3, 4, 5, 6, 7, 8, 9, 10, 11, 12, 13, 14, 15, 16, 17, 18, 19, 20,
                 21, 22, 23, 24, 25 :: nat] 3 = Some R \<and> pageBlocks R 8 = Some P \<and>
         length R = 9 \<and> length P = 2 \<and>
         length (P ! 0) = 8 \<and> length (concat (P ! 0)) = 24 \<and> P ! 1 = [[25]]"
proof -
  obtain R P where rp: "rowsOfItems [1, 2, 3, 4, 5, 6, 7, 8, 9, 10, 11, 12, 13, 14, 15, 16, 17, 18, 19, 20,
                 21, 22, 23, 24, 25 :: nat] 3 = Some R" "pageBlocks R 8 = Some P"
    using rows_and_pages [of 3 8 "[1, 2, 3, 4, 5, 6, 7, 8, 9, 10, 11, 12, 13, 14, 15, 16, 17, 18, 19, 20,
                 21, 22, 23, 24, 25 :: nat]"] by auto
  have R: "R = [[1, 2, 3], [4, 5, 6], [7, 8, 9], [10, 11, 12], [13, 14, 15],
                [16, 17, 18], [19, 20, 21], [22, 23, 24], [25]]"
    using rp(1) by (simp add: rowsOfItems_pos chunk.simps)
  have P: "P = [[[1, 2, 3], [4, 5, 6], [7, 8, 9], [10, 11, 12], [13, 14, 15],
                 [16, 17, 18], [19, 20, 21], [22, 23, 24]], [[25]]]"
    using rp(2) unfolding R by (simp add: pageBlocks_pos chunk.simps)
  show ?thesis
    using rp by (simp add: R P)
qed

subsection \<open>C6: the padding at the edges\<close>

text \<open>
  C6, as stated, fails: with a printer margin of 15 at the bottom and a margin of 10 the
  padding would be 5, and the only row of a page of one row (fewer than the 8 rows of a
  full page) has a bottom padding of 0.
\<close>

theorem short_page_counterexample:
  "layout (unset\<lparr>printerMargin := Some \<lparr>m_top = 5, m_bottom = 15, m_left = 5, m_right = 5\<rparr>\<rparr>)
     [1 :: nat] =
     Some (Inr [\<lparr>page_width = Some 210, page_height = Some 297,
                 area_border = ''1px solid #000'',
                 area_width = Some 190, area_height = Some 277,
                 itemRows = [[\<lparr>cell_width = Some (190 / 3), cell_height = Some (277 / 8),
                               cell_border = ''1px solid #000'',
                               paddingLeft = 0, paddingRight = 0, paddingTop = 0,
                               paddingBottom = 0, cell_content = Item 1\<rparr>]]\<rparr>]) \<and>
   max (m_bottom (printerMarginOf
          (unset\<lparr>printerMargin := Some \<lparr>m_top = 5, m_bottom = 15, m_left = 5, m_right = 5\<rparr>\<rparr>)) -
        m_bottom (marginOf
          (unset\<lparr>printerMargin := Some \<lparr>m_top = 5, m_bottom = 15, m_left = 5, m_right = 5\<rparr>\<rparr>)))
     0 = 5"
proof -
  let ?s = "unset\<lparr>printerMargin := Some \<lparr>m_top = 5, m_bottom = 15, m_left = 5, m_right = 5\<rparr>\<rparr>"
  have "layout ?s [1 :: nat] =
        Some (Inr (mapIdx (page ?s (Some 210) (Some 297))
          (chunk (nat (paperRows ?s)) (chunk (nat (paperColumns ?s))
             (expanded (skipItemsOf ?s) (itemCopiesOf ?s) [1])))))"
    by (rule layout_pos) (simp_all add: settings_eval)
  then show ?thesis
    by (simp add: settings_eval pages_eval)
qed

text \<open>
  C6, amended. In every page, the cell in row \<open>i\<close> and column \<open>j\<close> (counted from 0) has
  the left padding \<open>max (printerMargin.left - margin.left) 0\<close> when \<open>j = 0\<close>, the right
  padding \<open>max (printerMargin.right - margin.right) 0\<close> when \<open>j = columns - 1\<close>, the top
  padding \<open>max (printerMargin.top - margin.top) 0\<close> when \<open>i = 0\<close>, the bottom padding
  \<open>max (printerMargin.bottom - margin.bottom) 0\<close> when \<open>i = rows - 1\<close>, and the padding 0
  otherwise. Row \<open>rows - 1\<close> is the last row of a page that holds all its \<open>rows\<close> rows, and
  column \<open>columns - 1\<close> is the last cell of a row that holds all its \<open>columns\<close> cells: the
  last row of a page with fewer rows has no bottom padding. The width and the height of the
  cell are the nominal ones.
\<close>

theorem edge_padding:
  assumes "layout s items = Some (Inr pages)"
    and "paperWidth s = Inr pw" "paperHeight s = Inr ph"
    and "p < length pages" "i < length (itemRows (pages ! p))"
    and "j < length (itemRows (pages ! p) ! i)"
  shows "paddingLeft (itemRows (pages ! p) ! i ! j) =
           (if j = 0 then max (m_left (printerMarginOf s) - m_left (marginOf s)) 0 else 0) \<and>
         paddingRight (itemRows (pages ! p) ! i ! j) =
           (if Suc j = length (itemRows (pages ! p) ! i) \<and>
               int (length (itemRows (pages ! p) ! i)) = paperColumns s
            then max (m_right (printerMarginOf s) - m_right (marginOf s)) 0 else 0) \<and>
         paddingTop (itemRows (pages ! p) ! i ! j) =
           (if i = 0 then max (m_top (printerMarginOf s) - m_top (marginOf s)) 0 else 0) \<and>
         paddingBottom (itemRows (pages ! p) ! i ! j) =
           (if Suc i = length (itemRows (pages ! p)) \<and>
               int (length (itemRows (pages ! p))) = paperRows s
            then max (m_bottom (printerMarginOf s) - m_bottom (marginOf s)) 0 else 0) \<and>
         (int j = paperColumns s - 1 \<longleftrightarrow>
            Suc j = length (itemRows (pages ! p) ! i) \<and>
            int (length (itemRows (pages ! p) ! i)) = paperColumns s) \<and>
         (int i = paperRows s - 1 \<longleftrightarrow>
            Suc i = length (itemRows (pages ! p)) \<and>
            int (length (itemRows (pages ! p))) = paperRows s) \<and>
         cell_width (itemRows (pages ! p) ! i ! j) = itemWidth s pw \<and>
         cell_height (itemRows (pages ! p) ! i ! j) = itemHeight s ph"
proof -
  define c where "c = nat (paperColumns s)"
  define r where "r = nat (paperRows s)"
  define R where "R = chunk c (expanded (skipItemsOf s) (itemCopiesOf s) items)"
  define B where "B = chunk r R"
  have ne: "pages \<noteq> []" using assms(4) by auto
  have pos: "0 < paperColumns s" "0 < paperRows s" and pages: "pages = mapIdx (page s pw ph) B"
    using layout_Inr [OF assms(1-3) ne] by (simp_all add: B_def R_def c_def r_def)
  have c: "0 < c" "paperColumns s = int c" and r: "0 < r" "paperRows s = int r"
    using pos by (simp_all add: c_def r_def)
  have p: "p < length B" using assms(4) by (simp add: pages)
  have rows: "itemRows (pages ! p) = mapIdx (\<lambda>row rowIdx. mapIdx (cell s pw ph rowIdx) row) (B ! p)"
    using p by (simp add: pages nth_mapIdx page_def)
  have i: "i < length (B ! p)" using assms(5) by (simp add: rows)
  have row: "itemRows (pages ! p) ! i = mapIdx (cell s pw ph i) (B ! p ! i)"
    using i by (simp add: rows nth_mapIdx)
  have j: "j < length (B ! p ! i)" using assms(6) by (simp add: row)
  have x: "itemRows (pages ! p) ! i ! j = cell s pw ph i (B ! p ! i ! j) j"
    using j by (simp add: row nth_mapIdx)
  have lp: "length (B ! p) \<le> r"
    using p r(1) by (simp add: B_def length_chunk_le)
  have Bp: "B ! p = take r (drop (p * r) R)"
    using p r(1) by (simp add: B_def nth_chunk)
  have "i < length R - p * r" and ir2: "i < r"
    using i unfolding Bp by simp_all
  then have ir1: "p * r + i < length R" by linarith
  note ir = ir1 ir2
  then have "B ! p ! i = R ! (p * r + i)"
    unfolding Bp by simp
  with ir have li: "length (B ! p ! i) \<le> c"
    using c(1) by (simp add: R_def length_chunk_le)
  have len1: "length (itemRows (pages ! p)) = length (B ! p)"
    by (simp add: rows)
  have len2: "length (itemRows (pages ! p) ! i) = length (B ! p ! i)"
    by (simp add: row)
  note lens = len1 len2
  have cj: "int j = paperColumns s - 1 \<longleftrightarrow>
            Suc j = length (B ! p ! i) \<and> int (length (B ! p ! i)) = paperColumns s"
    using j li c by auto
  have ri: "int i = paperRows s - 1 \<longleftrightarrow>
            Suc i = length (B ! p) \<and> int (length (B ! p)) = paperRows s"
    using i lp r by auto
  show ?thesis
    unfolding x lens using cj ri by (simp add: cell_def)
qed

theorem edge_padding_witness:
  "\<exists>pages.
     layout (unset\<lparr>printerMargin := Some \<lparr>m_top = 5, m_bottom = 15, m_left = 5, m_right = 12\<rparr>,
                    columns := Some 2, rows := Some 2\<rparr>) [1, 2, 3, 4, 5 :: nat] = Some (Inr pages) \<and>
     paddingLeft (itemRows (pages ! 0) ! 1 ! 1) = 0 \<and>
     paddingRight (itemRows (pages ! 0) ! 1 ! 1) = 2 \<and>
     paddingTop (itemRows (pages ! 0) ! 1 ! 1) = 0 \<and>
     paddingBottom (itemRows (pages ! 0) ! 1 ! 1) = 5 \<and>
     paddingBottom (itemRows (pages ! 1) ! 0 ! 0) = 0"
proof -
  define s where "s = unset\<lparr>printerMargin := Some \<lparr>m_top = 5, m_bottom = 15, m_left = 5, m_right = 12\<rparr>,
                    columns := Some 2, rows := Some 2\<rparr>"
  define pages where "pages = mapIdx (page s (Some 210) (Some 297))
          (chunk (nat (paperRows s)) (chunk (nat (paperColumns s))
             (expanded (skipItemsOf s) (itemCopiesOf s) [1, 2, 3, 4, 5 :: nat])))"
  have pw: "paperWidth s = Inr (Some 210)" and ph: "paperHeight s = Inr (Some 297)"
    by (simp_all add: s_def settings_eval)
  have l: "layout s [1, 2, 3, 4, 5 :: nat] = Some (Inr pages)"
    unfolding pages_def by (rule layout_pos) (simp_all add: s_def settings_eval)
  have len: "length pages = 2"
    "length (itemRows (pages ! 0)) = 2" "length (itemRows (pages ! 0) ! Suc 0) = 2"
    "length (itemRows (pages ! Suc 0)) = 1" "length (itemRows (pages ! Suc 0) ! 0) = 1"
    by (simp_all add: pages_def s_def settings_eval pages_eval)
  have m: "paperColumns s = 2" "paperRows s = 2"
    "max (m_left (printerMarginOf s) - m_left (marginOf s)) 0 = 0"
    "max (m_right (printerMarginOf s) - m_right (marginOf s)) 0 = 2"
    "max (m_top (printerMarginOf s) - m_top (marginOf s)) 0 = 0"
    "max (m_bottom (printerMarginOf s) - m_bottom (marginOf s)) 0 = 5"
    by (simp_all add: s_def settings_eval)
  have "paddingLeft (itemRows (pages ! 0) ! 1 ! 1) = 0 \<and>
        paddingRight (itemRows (pages ! 0) ! 1 ! 1) = 2 \<and>
        paddingTop (itemRows (pages ! 0) ! 1 ! 1) = 0 \<and>
        paddingBottom (itemRows (pages ! 0) ! 1 ! 1) = 5"
    using edge_padding [OF l pw ph, of 0 "Suc 0" "Suc 0"] by (simp add: len m)
  moreover have "paddingBottom (itemRows (pages ! 1) ! 0 ! 0) = 0"
    using edge_padding [OF l pw ph, of "Suc 0" 0 0] by (simp add: len m)
  ultimately show ?thesis using l unfolding s_def by blast
qed

subsection \<open>C7: the paper size\<close>

text \<open>
  C7, as stated, fails: the empty string is neither \<open>custom\<close> nor a preset, and it is
  read as a missing paper size: the layout is the one of A4.
\<close>

theorem empty_paper_size_counterexample:
  "layout (unset\<lparr>paperSize := Some ''''\<rparr>) [1 :: nat] =
     Some (Inr [\<lparr>page_width = Some 210, page_height = Some 297,
                 area_border = ''1px solid #000'',
                 area_width = Some 190, area_height = Some 277,
                 itemRows = [[\<lparr>cell_width = Some (190 / 3), cell_height = Some (277 / 8),
                               cell_border = ''1px solid #000'',
                               paddingLeft = 0, paddingRight = 0, paddingTop = 0,
                               paddingBottom = 0, cell_content = Item 1\<rparr>]]\<rparr>])"
proof -
  let ?s = "unset\<lparr>paperSize := Some ''''\<rparr>"
  have "layout ?s [1 :: nat] =
        Some (Inr (mapIdx (page ?s (Some 210) (Some 297))
          (chunk (nat (paperRows ?s)) (chunk (nat (paperColumns ?s))
             (expanded (skipItemsOf ?s) (itemCopiesOf ?s) [1])))))"
    by (rule layout_pos) (simp_all add: settings_eval)
  then show ?thesis
    by (simp add: settings_eval pages_eval)
qed

text \<open>
  C7, amended. A paper size that is not empty, not \<open>custom\<close>, not one of the presets A3,
  A4, A5, Letter, Legal, Tabloid and not the name of a property that every object inherits
  makes the layout fail with a TypeError, and no page is produced. With \<open>custom\<close> the paper
  has the width and the height of \<open>customPaperSize\<close>, with a preset those of the preset.
  The empty paper size is read as A4, and an inherited name gives a paper with undefined
  dimensions.
\<close>

theorem paper_size_resolution:
  "(paperSize s = Some p \<longrightarrow> p \<noteq> [] \<longrightarrow> p \<noteq> ''custom'' \<longrightarrow>
      p \<notin> {''A3'', ''A4'', ''A5'', ''Letter'', ''Legal'', ''Tabloid''} \<longrightarrow>
      p \<notin> set objectPrototypeKeys \<longrightarrow>
      layout s items = Some (Inl TypeError)) \<and>
   (paperSize s = Some ''custom'' \<longrightarrow> customPaperSize s = Some d \<longrightarrow>
      paperWidth s = Inr (Some (width d)) \<and> paperHeight s = Inr (Some (height d))) \<and>
   (paperSize s = Some p \<longrightarrow> map_of presets p = Some d \<longrightarrow>
      paperWidth s = Inr (Some (width d)) \<and> paperHeight s = Inr (Some (height d))) \<and>
   (paperSize s = Some [] \<longrightarrow>
      paperWidth s = Inr (Some 210) \<and> paperHeight s = Inr (Some 297)) \<and>
   (paperSize s = Some p \<longrightarrow> p \<in> set objectPrototypeKeys \<longrightarrow>
      paperWidth s = Inr None \<and> paperHeight s = Inr None)"
proof (intro conjI impI)
  assume a: "paperSize s = Some p" "p \<noteq> []" "p \<noteq> ''custom''"
    "p \<notin> {''A3'', ''A4'', ''A5'', ''Letter'', ''Legal'', ''Tabloid''}"
    "p \<notin> set objectPrototypeKeys"
  have "map_of presets p = None" using a(4) presets_keys [of p] by blast
  then have "paperWidth s = Inl TypeError"
    using a(1,2,3,5) by (simp add: paperWidth_def paperSizeOf_def orString_def paperDimensions_def)
  then show "layout s items = Some (Inl TypeError)"
    by (simp add: layout_def)
next
  assume a: "paperSize s = Some ''custom''" "customPaperSize s = Some d"
  then show "paperWidth s = Inr (Some (width d))" "paperHeight s = Inr (Some (height d))"
    by (simp_all add: paperWidth_def paperHeight_def paperSizeOf_def orString_def
        customPaperSizeOf_def orObject_def)
next
  assume a: "paperSize s = Some p" "map_of presets p = Some d"
  then have "p \<in> {''A3'', ''A4'', ''A5'', ''Letter'', ''Legal'', ''Tabloid''}"
    using presets_keys [of p] by auto
  then have "p \<noteq> []" "p \<noteq> ''custom''" by auto
  then show "paperWidth s = Inr (Some (width d))" "paperHeight s = Inr (Some (height d))"
    using a by (simp_all add: paperWidth_def paperHeight_def paperSizeOf_def orString_def
        paperDimensions_def)
next
  assume "paperSize s = Some []"
  then show "paperWidth s = Inr (Some 210)" "paperHeight s = Inr (Some 297)"
    by (simp_all add: paperWidth_def paperHeight_def paperSizeOf_def orString_def
        paperDimensions_def presets_def)
next
  assume a: "paperSize s = Some p" "p \<in> set objectPrototypeKeys"
  then have "p \<noteq> []" "p \<noteq> ''custom''" "map_of presets p = None"
    by (auto simp: objectPrototypeKeys_def presets_def)
  then show "paperWidth s = Inr None" "paperHeight s = Inr None"
    using a by (simp_all add: paperWidth_def paperHeight_def paperSizeOf_def orString_def
        paperDimensions_def)
qed

theorem paper_size_resolution_witness:
  "layout (unset\<lparr>paperSize := Some ''B5''\<rparr>) [1 :: nat] = Some (Inl TypeError) \<and>
   paperWidth (unset\<lparr>paperSize := Some ''custom'',
                    customPaperSize := Some \<lparr>width = 100, height = 150\<rparr>\<rparr>) = Inr (Some 100) \<and>
   paperHeight (unset\<lparr>paperSize := Some ''custom'',
                    customPaperSize := Some \<lparr>width = 100, height = 150\<rparr>\<rparr>) = Inr (Some 150) \<and>
   paperWidth (unset\<lparr>paperSize := Some ''Letter''\<rparr>) = Inr (Some 216) \<and>
   paperHeight (unset\<lparr>paperSize := Some ''Letter''\<rparr>) = Inr (Some 279) \<and>
   paperWidth (unset\<lparr>paperSize := Some ''''\<rparr>) = Inr (Some 210) \<and>
   paperWidth (unset\<lparr>paperSize := Some ''toString''\<rparr>) = Inr None"
  using paper_size_resolution [of "unset\<lparr>paperSize := Some ''B5''\<rparr>" "''B5''" "[1 :: nat]"]
    paper_size_resolution [of "unset\<lparr>paperSize := Some ''custom'',
                    customPaperSize := Some \<lparr>width = 100, height = 150\<rparr>\<rparr>" _ _
                    "\<lparr>width = 100, height = 150\<rparr>"]
    paper_size_resolution [of "unset\<lparr>paperSize := Some ''Letter''\<rparr>" "''Letter''" _
                    "\<lparr>width = 216, height = 279\<rparr>"]
    paper_size_resolution [of "unset\<lparr>paperSize := Some ''''\<rparr>"]
    paper_size_resolution [of "unset\<lparr>paperSize := Some ''toString''\<rparr>" "''toString''"]
  by (simp add: unset_def objectPrototypeKeys_def presets_def)

subsection \<open>C8: the settings object and its edits\<close>

text \<open>
  C8, as stated, fails: the handler of the skipItems slider writes into the settings
  object that the layout has read (the object at reference 0 has no \<open>skipItems\<close> before
  and \<open>skipItems = 5\<close> after), and the host is handed that same object.
\<close>

theorem edit_in_place_counterexample:
  "skipItems (printSettingsAt store0 0) = None \<and>
   skipItems (printSettingsAt (skipItemsOnChange hostSetPrintSettings 0 5 store0) 0) = Some 5 \<and>
   handedToHost (skipItemsOnChange hostSetPrintSettings 0 5 store0) = [0]"
  by (simp add: store0_def unset_def skipItemsOnChange_def hostSetPrintSettings_def)

text \<open>
  C8, amended. Computing the layout leaves every object of the store as it is. An edit
  of \<open>skipItems\<close> writes the value into the settings object it was given, leaves the other
  objects as they are, and hands the host the reference it was given, not a new object;
  through the QR code dialog, the host is handed the QR settings object, which still holds
  the reference to the settings object that was written to.
\<close>

theorem settings_edit:
  "snd (PrintingDialog st ps items) = st \<and>
   fst (PrintingDialog st ps items) = layout (printSettingsAt st ps) items \<and>
   printSettingsAt (skipItemsOnChange hostSetPrintSettings ps v st) ps =
     (printSettingsAt st ps)\<lparr>skipItems := Some v\<rparr> \<and>
   (\<forall>q. q \<noteq> ps \<longrightarrow>
      printSettingsAt (skipItemsOnChange hostSetPrintSettings ps v st) q = printSettingsAt st q) \<and>
   handedToHost (skipItemsOnChange hostSetPrintSettings ps v st) = handedToHost st @ [ps] \<and>
   printSettingsAt (skipItemsOnChange (qrSetPrintSettings hostSetPrintSettings qr) ps v st) ps =
     (printSettingsAt st ps)\<lparr>skipItems := Some v\<rparr> \<and>
   printSettings
     (qrSettingsAt (skipItemsOnChange (qrSetPrintSettings hostSetPrintSettings qr) ps v st) qr) =
     ps \<and>
   handedToHost (skipItemsOnChange (qrSetPrintSettings hostSetPrintSettings qr) ps v st) =
     handedToHost st @ [qr]"
  by (simp add: PrintingDialog_def skipItemsOnChange_def qrSetPrintSettings_def hostSetPrintSettings_def)

theorem settings_edit_witness:
  "snd (PrintingDialog store0 0 [1 :: nat]) = store0 \<and>
   printSettingsAt (skipItemsOnChange hostSetPrintSettings 0 5 store0) 0 =
     unset\<lparr>skipItems := Some 5\<rparr> \<and>
   printSettingsAt (skipItemsOnChange hostSetPrintSettings 0 5 store0) 1 = unset \<and>
   handedToHost (skipItemsOnChange hostSetPrintSettings 0 5 store0) = [0] \<and>
   handedToHost (skipItemsOnChange (qrSetPrintSettings hostSetPrintSettings 3) 0 5 store0) = [3]"
  using settings_edit [of store0 0 "[1 :: nat]" 5 3]
  by (simp add: store0_def)

subsection \<open>C9: missing fields\<close>

text \<open>
  C9. A missing field is read as its default: the layout of a settings object without the
  field is the layout of the object with the field set to the default, for each of the
  ten fields, and the layout of any settings object is the layout of the object with all
  its missing fields filled in.
\<close>

theorem missing_fields_default:
  "layout (s\<lparr>paperSize := None\<rparr>) items = layout (s\<lparr>paperSize := Some ''A4''\<rparr>) items \<and>
   layout (s\<lparr>customPaperSize := None\<rparr>) items =
     layout (s\<lparr>customPaperSize := Some \<lparr>width = 210, height = 297\<rparr>\<rparr>) items \<and>
   layout (s\<lparr>margin := None\<rparr>) items =
     layout (s\<lparr>margin := Some \<lparr>m_top = 10, m_bottom = 10, m_left = 10, m_right = 10\<rparr>\<rparr>) items \<and>
   layout (s\<lparr>printerMargin := None\<rparr>) items =
     layout (s\<lparr>printerMargin := Some \<lparr>m_top = 5, m_bottom = 5, m_left = 5, m_right = 5\<rparr>\<rparr>) items \<and>
   layout (s\<lparr>spacing := None\<rparr>) items =
     layout (s\<lparr>spacing := Some \<lparr>horizontal = 0, vertical = 0\<rparr>\<rparr>) items \<and>
   layout (s\<lparr>columns := None\<rparr>) items = layout (s\<lparr>columns := Some 3\<rparr>) items \<and>
   layout (s\<lparr>rows := None\<rparr>) items = layout (s\<lparr>rows := Some 8\<rparr>) items \<and>
   layout (s\<lparr>skipItems := None\<rparr>) items = layout (s\<lparr>skipItems := Some 0\<rparr>) items \<and>
   layout (s\<lparr>itemCopies := None\<rparr>) items = layout (s\<lparr>itemCopies := Some 1\<rparr>) items \<and>
   layout (s\<lparr>borderShowMode := None\<rparr>) items =
     layout (s\<lparr>borderShowMode := Some BorderGrid\<rparr>) items \<and>
   layout s items = layout (withDefaults s) items"
proof (intro conjI)
  show "layout s items = layout (withDefaults s) items"
    by (rule layout_cong) (simp_all add: reading withDefaults_def split: option.split)
qed (rule layout_cong; simp add: reading)+

theorem missing_fields_default_witness:
  "layout (unset\<lparr>columns := None\<rparr>) [1 :: nat] = layout (unset\<lparr>columns := Some 3\<rparr>) [1] \<and>
   layout unset [1 :: nat] = layout (withDefaults unset) [1]"
  using missing_fields_default [of unset "[1 :: nat]"] by simp

subsection \<open>C10: no copies\<close>




end
